theory Spec2Isabelle
  imports Complex_Main "HOL-Library.Product_Lexorder" "HOL-Library.Monad_Syntax" "HOL-Library.Multiset"
begin

section \<open>Python strings\<close>

text \<open>
  A Python \<open>str\<close> is modelled as a HOL \<open>string\<close>; every character is a code point
  below 256. The character classes are the ones of \<open>str.isspace\<close> (also used by
  \<open>str.strip\<close> and by \<open>\s\<close> in a \<open>str\<close> pattern) and of \<open>\d\<close> on that range.
\<close>

definition is_space :: "char \<Rightarrow> bool" where
  "is_space c = (let n = (of_char c :: nat) in
     (9 \<le> n \<and> n \<le> 13) \<or> (28 \<le> n \<and> n \<le> 32) \<or> n = 133 \<or> n = 160)"

definition is_digit :: "char \<Rightarrow> bool" where
  "is_digit c = (let n = (of_char c :: nat) in 48 \<le> n \<and> n \<le> 57)"

definition lower_char :: "char \<Rightarrow> char" where
  "lower_char c = (let n = (of_char c :: nat) in
     if (65 \<le> n \<and> n \<le> 90) \<or> (192 \<le> n \<and> n \<le> 222 \<and> n \<noteq> 215)
     then char_of (n + 32) else c)"

definition lower :: "string \<Rightarrow> string" where
  "lower s = map lower_char s"

definition lstrip :: "string \<Rightarrow> string" where
  "lstrip s = dropWhile is_space s"

definition rstrip :: "string \<Rightarrow> string" where
  "rstrip s = rev (dropWhile is_space (rev s))"

definition strip :: "string \<Rightarrow> string" where
  "strip s = rstrip (lstrip s)"

definition startswith :: "string \<Rightarrow> string \<Rightarrow> bool" where
  "startswith s p = (take (length p) s = p)"

text \<open>\<open>contains p s\<close> is Python's \<open>p in s\<close>.\<close>

fun contains :: "string \<Rightarrow> string \<Rightarrow> bool" where
  "contains p [] = (p = [])"
| "contains p (c # cs) = (startswith (c # cs) p \<or> contains p cs)"

section \<open>What a path names\<close>

text \<open>
  What the file system has at a path: a file (with whether the process may remove it: a
  file in a directory without write permission, or one held open on a platform that
  locks open files, may not be removed), a directory, or a symbolic link whose target
  is missing. Nothing at the path is \<open>None\<close>.
\<close>

datatype node = File bool | Dir | DanglingLink

section \<open>app.py: is_probably_playlist\<close>

text \<open>\<open>is_probably_playlist\<close> on a string; \<open>url or ""\<close> is the string itself.\<close>

definition is_probably_playlist :: "string \<Rightarrow> bool" where
  "is_probably_playlist url =
     (let u = lower url in contains ''list='' u \<or> contains ''/playlist'' u)"

section \<open>Numbers as text\<close>

definition digit_char :: "nat \<Rightarrow> char" where
  "digit_char n = char_of (48 + n)"

fun show_nat :: "nat \<Rightarrow> string" where
  "show_nat n = (if n < 10 then [digit_char n] else show_nat (n div 10) @ [digit_char (n mod 10)])"

declare show_nat.simps [simp del]

text \<open>How an f-string prints an \<open>int\<close>.\<close>

definition show_int :: "int \<Rightarrow> string" where
  "show_int i = (if i < 0 then CHR ''-'' # show_nat (nat (- i)) else show_nat (nat i))"

section \<open>app.py: human_bytes\<close>

datatype py_error =
    IndexError | ValueError | AttributeError | RuntimeError
  | NotADirectoryError | FileExistsError | PermissionError

text \<open>Indexing a list as Python does: a negative index counts from the end.\<close>

definition py_index :: "'a list \<Rightarrow> int \<Rightarrow> py_error + 'a" where
  "py_index xs i =
     (if 0 \<le> i \<and> i < int (length xs) then Inr (xs ! nat i)
      else if i < 0 \<and> - int (length xs) \<le> i then Inr (xs ! nat (int (length xs) + i))
      else Inl IndexError)"

text \<open>
  \<open>round(x, 2)\<close> rounds the exact value of \<open>x\<close> to two decimals, a tie going to the even
  neighbour. The arithmetic of \<open>human_bytes\<close> is modelled on the exact values: the
  result of \<open>math.log\<close> is the logarithm itself, not the double nearest to it. The two
  agree on \<open>i\<close> except just below a power of 1024, where the quotient of the two
  rounded logarithms can reach the next integer (at \<open>1024^5 - 1\<close> the program has
  \<open>i = 5\<close>).
\<close>

definition round_half_even :: "real \<Rightarrow> int" where
  "round_half_even x =
     (let f = \<lfloor>x\<rfloor>; r = x - of_int f in
      if r < 1 / 2 then f else if 1 / 2 < r then f + 1 else if even f then f else f + 1)"

definition py_round2 :: "real \<Rightarrow> real" where
  "py_round2 x = of_int (round_half_even (x * 100)) / 100"

text \<open>
  How an f-string prints a float that is a non-negative number of hundredths below
  \<open>10^16\<close>: the integer part, a point, and one or two decimals.
\<close>

definition float_repr2 :: "real \<Rightarrow> string" where
  "float_repr2 s =
     (let k = nat \<lfloor>s * 100\<rfloor>; fr = k mod 100 in
      show_nat (k div 100) @ ''.'' @
      (if fr mod 10 = 0 then [digit_char (fr div 10)]
       else [digit_char (fr div 10), digit_char (fr mod 10)]))"

definition units :: "string list" where
  "units = [''B'', ''KB'', ''MB'', ''GB'', ''TB'']"

text \<open>
  The argument is a JSON number or \<open>None\<close>. \<open>float(None)\<close> raises inside the \<open>try\<close>
  and the function returns \<open>None\<close>; \<open>math.log\<close> of a negative number raises
  \<open>ValueError\<close> and \<open>units[i]\<close> may raise \<open>IndexError\<close>, both outside the \<open>try\<close>.
\<close>

definition human_bytes :: "real option \<Rightarrow> py_error + string option" where
  "human_bytes a =
     (case a of
        None \<Rightarrow> Inr None
      | Some n \<Rightarrow>
          if n = 0 then Inr (Some ''0 B'')
          else if n < 0 then Inl ValueError
          else
            let i = \<lfloor>log 1024 n\<rfloor>;
                p = 1024 powr (of_int i);
                s = py_round2 (n / p)
            in case py_index units i of
                 Inl e \<Rightarrow> Inl e
               | Inr u \<Rightarrow> Inr (Some (float_repr2 s @ '' '' @ u)))"

section \<open>app.py: the /get_formats handler\<close>

subsection \<open>The request\<close>

text \<open>JSON values as \<open>json.loads\<close> and \<open>request.get_json\<close> return them, and their truth value.\<close>

datatype json =
    JNull
  | JBool bool
  | JNum real
  | JStr string
  | JArr "json list"
  | JObj "(string \<times> json) list"

fun truthy :: "json \<Rightarrow> bool" where
  "truthy JNull = False"
| "truthy (JBool b) = b"
| "truthy (JNum x) = (x \<noteq> 0)"
| "truthy (JStr s) = (s \<noteq> [])"
| "truthy (JArr xs) = (xs \<noteq> [])"
| "truthy (JObj kvs) = (kvs \<noteq> [])"

text \<open>\<open>d.get(k)\<close> on a parsed object: the last pair with the key, \<open>None\<close> without one.\<close>

definition dict_get :: "(string \<times> json) list \<Rightarrow> string \<Rightarrow> json" where
  "dict_get kvs k = (case map_of (rev kvs) k of None \<Rightarrow> JNull | Some v \<Rightarrow> v)"

text \<open>
  A request: the \<open>url\<close> query parameter if present, whether the content type is JSON,
  and what \<open>get_json(silent=True)\<close> returns (\<open>None\<close> when the body does not parse).
\<close>

record formats_request =
  args_url :: "string option"
  is_json :: bool
  get_json :: "json option"

text \<open>
  The first lines of the handler: the value of \<open>url\<close> after the query string and the
  body have been looked at. \<open>payload.get\<close> exists on an object only.
\<close>

definition read_url :: "formats_request \<Rightarrow> py_error + json" where
  "read_url rq =
     (let url = (case args_url rq of None \<Rightarrow> JNull | Some u \<Rightarrow> JStr u) in
      if \<not> truthy url \<and> is_json rq then
        (let payload = (case get_json rq of
                          None \<Rightarrow> JObj []
                        | Some p \<Rightarrow> if truthy p then p else JObj [])
         in case payload of
              JObj kvs \<Rightarrow> Inr (dict_get kvs ''url'')
            | _ \<Rightarrow> Inl AttributeError)
      else Inr url)"

subsection \<open>The external tool and its output\<close>

text \<open>
  A format descriptor as the tool reports it, with the fields the program reads. \<open>None\<close>
  is a key that is absent or null: \<open>f.get\<close> answers \<open>None\<close> for both. Codecs, identifiers
  and extensions are strings, the other fields numbers, kept with their exact value.
\<close>

record format_desc =
  format_id :: "string option"
  vcodec :: "string option"
  acodec :: "string option"
  height :: "real option"
  fps :: "real option"
  abr :: "real option"
  ext :: "string option"
  filesize :: "real option"
  filesize_approx :: "real option"

text \<open>
  The object the tool prints. For the title, an absent key (\<open>None\<close>) differs from a null
  value (\<open>Some None\<close>), because \<open>data.get("title", "video")\<close> tells them apart. Of the
  entries only their number matters.
\<close>

record info =
  title :: "string option option"
  formats :: "format_desc list option"
  entries :: "nat option"

text \<open>
  \<open>spawn\<close> is \<open>subprocess.run\<close> with captured output (\<open>None\<close>: \<open>FileNotFoundError\<close>);
  \<open>json_loads\<close> answers the decoding error, or the object, or \<open>None\<close> for the text \<open>null\<close>.
\<close>

record tool_env =
  tool_path :: string
  spawn :: "string list \<Rightarrow> (string \<times> string \<times> int) option"
  json_loads :: "string \<Rightarrow> string + info option"

definition run_cmd_once :: "tool_env \<Rightarrow> string list \<Rightarrow> string \<times> string \<times> int" where
  "run_cmd_once env cmd =
     (case spawn env cmd of
        Some r \<Rightarrow> r
      | None \<Rightarrow> ([], ''Command not found: '' @ hd cmd, 127))"

definition fetch_formats_for :: "tool_env \<Rightarrow> string \<Rightarrow> string list \<Rightarrow> info option \<times> string option" where
  "fetch_formats_for env given_url extra_args =
     (case run_cmd_once env ([tool_path env, ''-J''] @ extra_args @ [given_url]) of
        (out, err, code) \<Rightarrow>
          let raw_json = (if strip out \<noteq> [] then strip out else strip err) in
          if raw_json = [] then (None, Some (''No output from yt-dlp (exit '' @ show_int code @ '')''))
          else case json_loads env raw_json of
                 Inr d \<Rightarrow> (d, None)
               | Inl e \<Rightarrow> (None, Some (''Invalid JSON from yt-dlp: '' @ e)))"

definition has_formats :: "info option \<Rightarrow> bool" where
  "has_formats data =
     (case data of None \<Rightarrow> False
      | Some d \<Rightarrow> (case formats d of None \<Rightarrow> False | Some fs \<Rightarrow> fs \<noteq> []))"

definition has_entries :: "info option \<Rightarrow> bool" where
  "has_entries data =
     (case data of None \<Rightarrow> False
      | Some d \<Rightarrow> (case entries d of None \<Rightarrow> False | Some n \<Rightarrow> n \<noteq> 0))"

subsection \<open>Classification and order\<close>

record item =
  it_format_id :: "string option"
  it_height :: "real option"
  it_fps :: "real option"
  it_ext :: "string option"
  it_abr :: "real option"
  it_filesize :: "real option"
  it_filesize_hr :: "string option"

definition num_truthy :: "real option \<Rightarrow> bool" where
  "num_truthy a = (case a of None \<Rightarrow> False | Some x \<Rightarrow> x \<noteq> 0)"

definition make_item :: "format_desc \<Rightarrow> py_error + item" where
  "make_item f =
     (let size = (if num_truthy (filesize f) then filesize f else filesize_approx f) in
      case (if num_truthy size then human_bytes size else Inr None) of
        Inl e \<Rightarrow> Inl e
      | Inr hr \<Rightarrow>
          Inr \<lparr>it_format_id = format_id f, it_height = height f, it_fps = fps f,
               it_ext = ext f, it_abr = abr f, it_filesize = size, it_filesize_hr = hr\<rparr>)"

text \<open>The loop over \<open>formats\<close>; the two lists grow at their ends.\<close>

fun classify :: "format_desc list \<Rightarrow> item list \<Rightarrow> item list \<Rightarrow> py_error + (item list \<times> item list)" where
  "classify [] video_formats audio_formats = Inr (video_formats, audio_formats)"
| "classify (f # fs) video_formats audio_formats =
     (case make_item f of
        Inl e \<Rightarrow> Inl e
      | Inr it \<Rightarrow>
          if vcodec f \<noteq> Some ''none'' \<and> acodec f = Some ''none''
            then classify fs (video_formats @ [it]) audio_formats
          else if acodec f \<noteq> Some ''none'' \<and> vcodec f = Some ''none''
            then classify fs video_formats (audio_formats @ [it])
          else classify fs video_formats audio_formats)"

text \<open>
  \<open>list.sort(key=k, reverse=True)\<close>: descending by key, items with equal keys in their
  original order. This is the stable ascending sort of the reversed list, reversed.
\<close>

definition sort_reverse :: "('a \<Rightarrow> 'k::linorder) \<Rightarrow> 'a list \<Rightarrow> 'a list" where
  "sort_reverse k xs = rev (sort_key k (rev xs))"

definition or0 :: "real option \<Rightarrow> real" where
  "or0 a = (case a of None \<Rightarrow> 0 | Some x \<Rightarrow> x)"

definition video_key :: "item \<Rightarrow> real \<times> real" where
  "video_key x = (or0 (it_height x), or0 (it_fps x))"

definition audio_key :: "item \<Rightarrow> real" where
  "audio_key x = or0 (it_abr x)"



text \<open>Lines 104 to 127: the loop, then the two sorts.\<close>

definition format_lists :: "format_desc list \<Rightarrow> py_error + (item list \<times> item list)" where
  "format_lists fs =
     (case classify fs [] [] of
        Inl e \<Rightarrow> Inl e
      | Inr (video_formats, audio_formats) \<Rightarrow>
          Inr (sort_reverse video_key video_formats, sort_reverse audio_key audio_formats))"

subsection \<open>The handler\<close>

datatype body =
    ErrorBody string
  | FormatsBody "string option" bool "item list" "item list"

datatype response = Response nat body | Unhandled py_error

definition playlist_body :: "string \<Rightarrow> body" where
  "playlist_body t = FormatsBody (Some t) True [] []"

text \<open>
  The part of the handler after the first fetch. The second component of the result is
  the list of the commands that were spawned, in order.
\<close>

definition list_formats :: "tool_env \<Rightarrow> string \<Rightarrow> response \<times> string list list" where
  "list_formats env url =
     (let cmd1 = [tool_path env, ''-J''] @ [''--no-playlist''] @ [url];
          cmd2 = [tool_path env, ''-J''] @ [] @ [url];
          first = fetch_formats_for env url [''--no-playlist''];
          retry = \<not> has_formats (fst first);
          (data, error) = (if retry then fetch_formats_for env url [] else first);
          calls = (if retry then [cmd1, cmd2] else [cmd1])
      in if retry \<and> has_entries data \<and> \<not> has_formats data then
           (Response 200 (playlist_body
              (case data of
                 Some d \<Rightarrow> (case title d of Some (Some t) \<Rightarrow> if t \<noteq> [] then t else ''Playlist''
                            | _ \<Rightarrow> ''Playlist'')
               | None \<Rightarrow> ''Playlist'')), calls)
         else if \<not> has_formats data then
           (Response 404 (ErrorBody
              (case error of Some e \<Rightarrow> if e \<noteq> [] then e else ''No formats found''
               | None \<Rightarrow> ''No formats found'')), calls)
         else
           (case data of
              None \<Rightarrow> (Response 404 (ErrorBody ''No formats found''), calls)
            | Some d \<Rightarrow>
                (case format_lists (case formats d of Some fs \<Rightarrow> fs | None \<Rightarrow> []) of
                   Inl e \<Rightarrow> (Unhandled e, calls)
                 | Inr (video_formats, audio_formats) \<Rightarrow>
                     (Response 200 (FormatsBody
                        (case title d of None \<Rightarrow> Some ''video'' | Some t \<Rightarrow> t)
                        False video_formats audio_formats), calls))))"

definition get_formats_api :: "tool_env \<Rightarrow> formats_request \<Rightarrow> response \<times> string list list" where
  "get_formats_api env rq =
     (case read_url rq of
        Inl e \<Rightarrow> (Unhandled e, [])
      | Inr url \<Rightarrow>
          if \<not> truthy url then (Response 400 (ErrorBody ''Missing url''), [])
          else (case url of
                  JStr u \<Rightarrow>
                    if is_probably_playlist u then (Response 200 (playlist_body ''Playlist''), [])
                    else list_formats env u
                | _ \<Rightarrow> (Unhandled AttributeError, [])))"

section \<open>app.py: safe_path and the /progress handler\<close>

text \<open>
  What the operating system and the standard library decide is a parameter: the current
  working directory, \<open>Path.expanduser\<close> (\<open>RuntimeError\<close> when the home directory of the
  named user cannot be found), \<open>Path.resolve\<close> (an absolute path, here the list of its
  components below the root; \<open>ValueError\<close> for an embedded null character,
  \<open>RuntimeError\<close> for a loop of links), whether the process may create a directory
  at a path, and \<open>urllib.parse.unquote\<close>.
\<close>

record os_env =
  cwd :: "string list"
  expanduser :: "string \<Rightarrow> py_error + string"
  resolve :: "string \<Rightarrow> py_error + string list"
  may_create :: "string list \<Rightarrow> bool"
  unquote :: "string \<Rightarrow> string"

type_synonym tree = "string list \<Rightarrow> node option"

definition path_str :: "string list \<Rightarrow> string" where
  "path_str comps = (if comps = [] then ''/'' else concat (map (\<lambda>c. CHR ''/'' # c) comps))"

text \<open>
  \<open>target.mkdir(parents=True, exist_ok=True)\<close>, walking from the root to the target
  (\<open>pre\<close> is the part already passed): a directory that exists is kept, a missing one
  is created if the process may, and anything else in the way raises. What the file
  system holds after the exception is not described.
\<close>

fun mkdirs :: "os_env \<Rightarrow> string list \<Rightarrow> string list \<Rightarrow> tree \<Rightarrow> py_error + tree" where
  "mkdirs env pre [] t = Inr t"
| "mkdirs env pre (c # cs) t =
     (case t (pre @ [c]) of
        Some Dir \<Rightarrow> mkdirs env (pre @ [c]) cs t
      | Some (File r) \<Rightarrow> Inl (if cs = [] then FileExistsError else NotADirectoryError)
      | Some DanglingLink \<Rightarrow> Inl FileExistsError
      | None \<Rightarrow>
          if may_create env (pre @ [c])
          then mkdirs env (pre @ [c]) cs (t(pre @ [c] := Some Dir))
          else Inl PermissionError)"

definition safe_path :: "os_env \<Rightarrow> string \<Rightarrow> tree \<Rightarrow> py_error + string \<times> tree" where
  "safe_path env p t =
     (if p = [] then Inr (path_str (cwd env), t)
      else case expanduser env p of
             Inl e \<Rightarrow> Inl e
           | Inr p' \<Rightarrow>
               (case resolve env p' of
                  Inl e \<Rightarrow> Inl e
                | Inr target \<Rightarrow>
                    (case mkdirs env [] target t of
                       Inl e \<Rightarrow> Inl e
                     | Inr t' \<Rightarrow> Inr (path_str target, t'))))"

definition default_playlist_format :: string where
  "default_playlist_format = ''bv*[height<=720]+ba/b[height<=720]''"

text \<open>The query string of a request to \<open>/progress\<close>; \<open>None\<close> is an absent parameter.\<close>

record progress_query =
  q_url :: "string option"
  q_quality :: "string option"
  q_download_path :: "string option"
  q_is_playlist :: "string option"

definition args_get :: "string option \<Rightarrow> string \<Rightarrow> string" where
  "args_get v dflt = (case v of None \<Rightarrow> dflt | Some s \<Rightarrow> s)"

text \<open>\<open>os.path.join\<close> of two components on a POSIX host.\<close>

definition path_join :: "string \<Rightarrow> string \<Rightarrow> string" where
  "path_join a b =
     (if startswith b ''/'' then b
      else if a = [] \<or> last a = CHR ''/'' then a @ b
      else a @ ''/'' @ b)"

datatype progress_response = BadRequest string | EventStream "string list"

definition request_url :: "progress_query \<Rightarrow> string" where
  "request_url q = strip (args_get (q_url q) [])"

definition request_quality :: "progress_query \<Rightarrow> string" where
  "request_quality q = strip (args_get (q_quality q) [])"

definition download_dir :: "os_env \<Rightarrow> progress_query \<Rightarrow> tree \<Rightarrow> py_error + string \<times> tree" where
  "download_dir env q t = safe_path env (unquote env (strip (args_get (q_download_path q) []))) t"

definition playlist_mode :: "progress_query \<Rightarrow> bool" where
  "playlist_mode q =
     (let force_playlist = (lower (args_get (q_is_playlist q) ''false'') \<in> set [''1'', ''true'', ''yes''])
      in force_playlist \<or> is_probably_playlist (request_url q))"

definition ffmpeg_args :: "string \<Rightarrow> string list" where
  "ffmpeg_args ffmpeg = (if ffmpeg \<noteq> [] then [''--ffmpeg-location'', ffmpeg] else [])"

text \<open>
  The handler up to the point where it hands the generator to the response: the answer
  is a 400 error or the event stream of the command that the generator will spawn.
  The destination directory is resolved (and created) before the url is looked at, and
  an exception of \<open>safe_path\<close> is not handled.
\<close>

definition progress :: "os_env \<Rightarrow> string \<Rightarrow> string \<Rightarrow> progress_query \<Rightarrow> tree \<Rightarrow> py_error + progress_response \<times> tree" where
  "progress env yt_dlp ffmpeg q t =
     (let url = request_url q;
          quality = request_quality q
      in case download_dir env q t of
           Inl e \<Rightarrow> Inl e
         | Inr (download_path, t') \<Rightarrow>
             if url = [] then Inr (BadRequest ''Missing url'', t')
             else if playlist_mode q then
               Inr (EventStream ([yt_dlp, ''--newline''] @ [''-f'', default_playlist_format, ''--yes-playlist'']
                  @ ffmpeg_args ffmpeg
                  @ [''-o'', path_join (path_join download_path ''%(playlist_title,channel)s'') ''%(title)s.%(ext)s'', url]), t')
             else if quality = [] then
               Inr (BadRequest ''Missing quality (vfmt or vfmt+afmt) for single video'', t')
             else
               Inr (EventStream ([yt_dlp, ''--newline'']
                  @ [''-f'', (if CHR ''+'' \<notin> set quality then quality @ ''+ba'' else quality), ''--no-playlist'']
                  @ ffmpeg_args ffmpeg
                  @ [''-o'', path_join download_path ''%(title)s.%(ext)s'', url]), t'))"

section \<open>app.py: the progress pattern and the event stream\<close>

subsection \<open>Reading numbers\<close>

definition digits_value :: "string \<Rightarrow> nat" where
  "digits_value s = foldl (\<lambda>a c. 10 * a + (of_char c - 48)) 0 s"

text \<open>Reading a decimal integer with an optional minus sign.\<close>

definition read_int :: "string \<Rightarrow> int" where
  "read_int s = (case s of
                   [] \<Rightarrow> 0
                 | c # r \<Rightarrow> if c = CHR ''-'' then - int (digits_value r) else int (digits_value s))"

text \<open>
  \<open>float\<close> on plain decimal literals: digits, optionally followed by a point and more
  digits. The result is the exact decimal value (Python returns the double nearest to it).
  Python's \<open>float\<close> accepts more (a sign, an exponent, underscores, surrounding white
  space, \<open>inf\<close>, \<open>nan\<close>); outside the decimal literals this function answers \<open>None\<close>,
  so that \<open>Some\<close> here always is a value that Python returns without raising.
\<close>

definition py_float :: "string \<Rightarrow> real option" where
  "py_float s =
     (let ip = takeWhile is_digit s; r = drop (length ip) s in
      if ip = [] then None
      else if r = [] then Some (real (digits_value ip))
      else if hd r = CHR ''.'' \<and> tl r \<noteq> [] \<and> list_all is_digit (tl r)
        then Some (real (digits_value ip) + real (digits_value (tl r)) / 10 ^ length (tl r))
      else None)"

subsection \<open>The progress pattern\<close>

text \<open>
  \<^verbatim>\<open>^\[download\]\s+(?P<pct>\d{1,3}(?:\.\d+)?)%\s+of\s+(?P<size>\S+)\s+at\s+(?P<speed>\S+)\s+ETA\s+(?P<eta>\S+)\<close>
  applied with \<open>match\<close>, that is, anchored at the start of the line only. Each greedy
  repetition of the pattern is followed by something that no character of the repeated
  class can start, so giving characters back never produces a match that the longest
  repetition does not produce; the scanner takes the longest repetition at each place.
\<close>

definition lit :: "string \<Rightarrow> string \<Rightarrow> string option" where
  "lit p s = (if startswith s p then Some (drop (length p) s) else None)"

definition spaces1 :: "string \<Rightarrow> string option" where
  "spaces1 s = (if takeWhile is_space s = [] then None else Some (dropWhile is_space s))"

definition nonspaces1 :: "string \<Rightarrow> (string \<times> string) option" where
  "nonspaces1 s =
     (let w = takeWhile (\<lambda>c. \<not> is_space c) s in
      if w = [] then None else Some (w, drop (length w) s))"

definition digits_1_3 :: "string \<Rightarrow> (string \<times> string) option" where
  "digits_1_3 s =
     (let d = takeWhile is_digit (take 3 s) in
      if d = [] then None else Some (d, drop (length d) s))"

definition fraction_opt :: "string \<Rightarrow> string \<times> string" where
  "fraction_opt s =
     (case s of
        [] \<Rightarrow> ([], s)
      | c # r \<Rightarrow> if c = CHR ''.'' \<and> takeWhile is_digit r \<noteq> []
                 then (c # takeWhile is_digit r, dropWhile is_digit r)
                 else ([], s))"

definition progress_re :: "string \<Rightarrow> (string \<times> string \<times> string \<times> string) option" where
  "progress_re line = do {
     r \<leftarrow> lit ''[download]'' line;
     r \<leftarrow> spaces1 r;
     (d, r) \<leftarrow> digits_1_3 r;
     (f, r) \<leftarrow> Some (fraction_opt r);
     r \<leftarrow> lit ''%'' r;
     r \<leftarrow> spaces1 r;
     r \<leftarrow> lit ''of'' r;
     r \<leftarrow> spaces1 r;
     (sz, r) \<leftarrow> nonspaces1 r;
     r \<leftarrow> spaces1 r;
     r \<leftarrow> lit ''at'' r;
     r \<leftarrow> spaces1 r;
     (speed, r) \<leftarrow> nonspaces1 r;
     r \<leftarrow> spaces1 r;
     r \<leftarrow> lit ''ETA'' r;
     r \<leftarrow> spaces1 r;
     (eta, r) \<leftarrow> nonspaces1 r;
     Some (d @ f, sz, speed, eta)
   }"

subsection \<open>Events\<close>

datatype event =
    Starting
  | Downloading "real option" string string string
  | Destination string
  | Already string
  | Merging string
  | Postprocess string
  | Info string
  | Error string
  | Finished

text \<open>\<open>s.split(sep, 1)[-1]\<close>: what follows the first occurrence of \<open>sep\<close>, or all of \<open>s\<close>.\<close>

fun find_after :: "string \<Rightarrow> string \<Rightarrow> string option" where
  "find_after sep [] = (if sep = [] then Some [] else None)"
| "find_after sep (c # cs) =
     (if startswith (c # cs) sep then Some (drop (length sep) (c # cs)) else find_after sep cs)"

definition split_last :: "string \<Rightarrow> string \<Rightarrow> string" where
  "split_last sep s = (case find_after sep s of None \<Rightarrow> s | Some r \<Rightarrow> r)"

text \<open>The body of the loop over the lines of the process: at most one event per line.\<close>

definition parse_line :: "string \<Rightarrow> event option" where
  "parse_line raw =
     (let line = rstrip raw in
      case progress_re line of
        Some (pct, sz, speed, eta) \<Rightarrow> Some (Downloading (py_float pct) sz speed eta)
      | None \<Rightarrow>
          if startswith line ''[download] Destination:''
            then Some (Destination (strip (split_last ''Destination:'' line)))
          else if contains ''has already been downloaded'' line then Some (Already (strip line))
          else if startswith line ''[Merger]'' then Some (Merging (strip line))
          else if startswith line ''[ExtractAudio]'' then Some (Postprocess (strip line))
          else if startswith line ''[youtube]'' \<or> startswith line ''[info]'' then Some (Info (strip line))
          else if startswith line ''ERROR:'' then Some (Error (strip line))
          else None)"

definition content :: "string list \<Rightarrow> event list" where
  "content ls = List.map_filter parse_line ls"

text \<open>
  A run of the generator that is read to its end. The process could not be launched
  (\<open>FileNotFoundError\<close> or another exception, with the text the handler prints), or it
  wrote lines and exited with a code, or reading its output raised after some lines
  (a line that does not decode, for instance); then \<open>proc.wait()\<close> is not reached and
  the exit code of the process, the last component, is not looked at.
\<close>

datatype popen =
    LaunchNotFound string
  | LaunchError string
  | Ran "string list" int
  | ReadError "string list" string int

definition exit_message :: "int \<Rightarrow> string" where
  "exit_message ret = ''yt-dlp exited with code '' @ show_int ret"

fun sse_stream :: "popen \<Rightarrow> event list" where
  "sse_stream (LaunchNotFound m) = [Starting, Error m]"
| "sse_stream (LaunchError m) = [Starting, Error m]"
| "sse_stream (Ran ls ret) =
     Starting # content ls @ [if ret = 0 then Finished else Error (exit_message ret)]"
| "sse_stream (ReadError ls m ret) = Starting # content ls @ [Error m]"

text \<open>
  The events that end a stream of a process that ran: \<open>finished\<close>, and the error that
  reports the exit code.
\<close>

definition is_exit_error :: "event \<Rightarrow> bool" where
  "is_exit_error e = (case e of Error m \<Rightarrow> startswith m ''yt-dlp exited with code '' | _ \<Rightarrow> False)"

definition terminal :: "event \<Rightarrow> bool" where
  "terminal e = (e = Finished \<or> is_exit_error e)"

section \<open>cli.py: download_and_merge\<close>

text \<open>
  The file system maps a name in the working directory to what is there. An external
  command is any function from the file system to
  a result and a new file system: \<open>subprocess.run\<close> either returns (exit code zero
  with the captured output, or a non-zero exit code), or raises \<open>FileNotFoundError\<close>,
  or raises something else.
\<close>

type_synonym fs = "string \<Rightarrow> node option"

text \<open>\<open>os.path.exists\<close> follows links: it is false for a link without target.\<close>

definition os_path_exists :: "fs \<Rightarrow> string \<Rightarrow> bool" where
  "os_path_exists s f = (case s f of Some (File r) \<Rightarrow> True | Some Dir \<Rightarrow> True | _ \<Rightarrow> False)"

text \<open>
  \<open>os.remove\<close>: \<open>None\<close> when it raises (\<open>IsADirectoryError\<close>, \<open>PermissionError\<close>,
  \<open>FileNotFoundError\<close>), otherwise the file system without the path.
\<close>

definition os_remove :: "fs \<Rightarrow> string \<Rightarrow> fs option" where
  "os_remove s f =
     (case s f of
        Some (File True) \<Rightarrow> Some (s(f := None))
      | Some DanglingLink \<Rightarrow> Some (s(f := None))
      | _ \<Rightarrow> None)"

datatype proc_result = Completed string | NonZero | NotFound | OtherFault

type_synonym runner = "string list \<Rightarrow> fs \<Rightarrow> proc_result \<times> fs"

datatype 'a outcome = Returned 'a | SystemExit nat | Raised

text \<open>
  \<open>run_cmd\<close>: stdout on success, \<open>None\<close> on a non-zero exit code, \<open>sys.exit(1)\<close>
  when the executable is missing; any other exception propagates.
\<close>

definition run_cmd :: "runner \<Rightarrow> string list \<Rightarrow> fs \<Rightarrow> string option outcome \<times> fs" where
  "run_cmd run cmd s =
     (case run cmd s of
        (Completed out, s') \<Rightarrow> (Returned (Some out), s')
      | (NonZero, s') \<Rightarrow> (Returned None, s')
      | (NotFound, s') \<Rightarrow> (SystemExit 1, s')
      | (OtherFault, s') \<Rightarrow> (Raised, s'))"

definition video_file :: string where "video_file = ''video_temp.mp4''"
definition audio_file :: string where "audio_file = ''audio_temp.m4a''"

text \<open>One step of the \<open>try\<close> body: run the command, leave with \<open>False\<close> when it failed.\<close>

definition step :: "runner \<Rightarrow> string list \<Rightarrow> fs \<Rightarrow> (fs \<Rightarrow> bool outcome \<times> fs) \<Rightarrow> bool outcome \<times> fs" where
  "step run cmd s k =
     (case run_cmd run cmd s of
        (Returned None, s') \<Rightarrow> (Returned False, s')
      | (Returned (Some out), s') \<Rightarrow> k s'
      | (SystemExit n, s') \<Rightarrow> (SystemExit n, s')
      | (Raised, s') \<Rightarrow> (Raised, s'))"

definition try_body :: "runner \<Rightarrow> string \<Rightarrow> string \<Rightarrow> string \<Rightarrow> string \<Rightarrow> string \<Rightarrow> string \<Rightarrow> fs \<Rightarrow> bool outcome \<times> fs" where
  "try_body run yt_dlp ffmpeg url video_fmt audio_fmt output_name s =
     step run [yt_dlp, ''-f'', video_fmt, ''-o'', video_file, url] s (\<lambda>s1.
     step run [yt_dlp, ''-f'', audio_fmt, ''-o'', audio_file, url] s1 (\<lambda>s2.
     step run [ffmpeg, ''-y'', ''-i'', video_file, ''-i'', audio_file, ''-c'', ''copy'', output_name] s2 (\<lambda>s3.
     (Returned True, s3))))"

text \<open>
  The \<open>finally\<close> block: \<open>for f in [video_file, audio_file]: if os.path.exists(f): os.remove(f)\<close>.
  The first component is false when \<open>os.remove\<close> raised, which ends the loop.
\<close>

fun cleanup :: "string list \<Rightarrow> fs \<Rightarrow> bool \<times> fs" where
  "cleanup [] s = (True, s)"
| "cleanup (f # fs) s =
     (if os_path_exists s f
      then (case os_remove s f of None \<Rightarrow> (False, s) | Some s' \<Rightarrow> cleanup fs s')
      else cleanup fs s)"

text \<open>An exception raised in the \<open>finally\<close> block replaces the outcome of the \<open>try\<close> body.\<close>

definition download_and_merge :: "runner \<Rightarrow> string \<Rightarrow> string \<Rightarrow> string \<Rightarrow> string \<Rightarrow> string \<Rightarrow> string \<Rightarrow> fs \<Rightarrow> bool outcome \<times> fs" where
  "download_and_merge run yt_dlp ffmpeg url video_fmt audio_fmt output_name s =
     (case try_body run yt_dlp ffmpeg url video_fmt audio_fmt output_name s of
        (r, s') \<Rightarrow>
          (case cleanup [video_file, audio_file] s' of
             (True, s'') \<Rightarrow> (r, s'')
           | (False, s'') \<Rightarrow> (Raised, s'')))"

section \<open>cli.py: get_formats\<close>

text \<open>The loop of \<open>get_formats\<close>: the descriptors themselves are kept, in the tool's order.\<close>

fun cli_classify :: "format_desc list \<Rightarrow> format_desc list \<Rightarrow> format_desc list \<Rightarrow> format_desc list \<times> format_desc list" where
  "cli_classify [] video_formats audio_formats = (video_formats, audio_formats)"
| "cli_classify (f # fs) video_formats audio_formats =
     (if vcodec f \<noteq> Some ''none'' \<and> acodec f = Some ''none''
        then cli_classify fs (video_formats @ [f]) audio_formats
      else if acodec f \<noteq> Some ''none'' \<and> vcodec f = Some ''none''
        then cli_classify fs video_formats (audio_formats @ [f])
      else cli_classify fs video_formats audio_formats)"



section \<open>Properties of human_bytes\<close>

lemma floor_log1024:
  assumes "0 < n" and "1024 powr (of_int k) \<le> n" and "n < 1024 powr (of_int k + 1)"
  shows "\<lfloor>log 1024 n\<rfloor> = k"
proof -
  have "of_int k \<le> log 1024 n"
    using assms by (simp add: le_log_iff)
  moreover have "log 1024 n < of_int k + 1"
    using assms by (simp add: log_less_iff)
  ultimately show ?thesis by linarith
qed

lemma human_bytes_pos:
  assumes "0 < n" and "\<lfloor>log 1024 n\<rfloor> = i"
  shows "human_bytes (Some n) =
    (case py_index units i of Inl e \<Rightarrow> Inl e
     | Inr u \<Rightarrow> Inr (Some (float_repr2 (py_round2 (n / 1024 powr of_int i)) @ '' '' @ u)))"
  using assms by (simp add: human_bytes_def)

lemma float_repr2_whole: "float_repr2 (of_nat m) = show_nat m @ ''.0''"
proof -
  have z: "digit_char 0 = CHR ''0''" by code_simp
  have "real m * 100 = of_nat (m * 100)" by simp
  then have k: "nat \<lfloor>real m * 100\<rfloor> = m * 100"
    by (simp only: floor_of_nat nat_int)
  show ?thesis by (simp add: float_repr2_def k z Let_def)
qed

lemma py_round2_whole: "py_round2 (of_nat m) = of_nat m"
proof -
  have "round_half_even (of_nat (m * 100)) = int (m * 100)"
    unfolding round_half_even_def by (simp del: of_nat_mult)
  then show ?thesis by (simp add: py_round2_def)
qed

lemma show_nat_examples: "show_nat 1 = ''1''" "show_nat 512 = ''512''"
  by code_simp+


lemma human_bytes_1024: "human_bytes (Some 1024) = Inr (Some ''1.0 KB'')"
proof -
  have i: "\<lfloor>log 1024 (1024::real)\<rfloor> = 1" by simp
  have u: "py_index units 1 = Inr ''KB''" by (simp add: py_index_def units_def)
  have "human_bytes (Some 1024) = Inr (Some (float_repr2 (py_round2 (of_nat 1)) @ '' KB''))"
    by (simp add: human_bytes_pos [OF _ i] u)
  then show ?thesis by (simp only: py_round2_whole float_repr2_whole show_nat_examples) simp
qed

lemma human_bytes_2PiB: "human_bytes (Some (2 * 1024 ^ 5)) = Inl IndexError"
proof -
  have i: "\<lfloor>log 1024 (2 * 1024 ^ 5 :: real)\<rfloor> = 5"
    by (rule floor_log1024) (simp_all add: powr_add)
  have u: "py_index units 5 = Inl IndexError" by (simp add: py_index_def units_def)
  have p: "(0::real) < 2 * 1024 ^ 5" by simp
  show ?thesis by (simp only: human_bytes_pos [OF p i] u sum.case)
qed

lemma human_bytes_half: "human_bytes (Some (1 / 2)) = Inr (Some ''512.0 TB'')"
proof -
  have i: "\<lfloor>log 1024 (1 / 2 :: real)\<rfloor> = - 1"
    by (rule floor_log1024) (simp_all add: powr_minus)
  have u: "py_index units (- 1) = Inr ''TB''" by (simp add: py_index_def units_def)
  have p: "(0::real) < 1 / 2" by simp
  have q: "(1 / 2) / 1024 powr of_int (- 1) = (of_nat 512 :: real)" by (simp add: powr_minus)
  have "human_bytes (Some (1 / 2)) = Inr (Some (float_repr2 (py_round2 (of_nat 512)) @ '' TB''))"
    by (simp only: human_bytes_pos [OF p i] u sum.case q) simp
  then show ?thesis by (simp only: py_round2_whole float_repr2_whole show_nat_examples) simp
qed

lemma human_bytes_out_of_range:
  assumes "1024 ^ 5 \<le> n"
  shows "human_bytes (Some n) = Inl IndexError"
proof -
  have pos: "0 < n"
    using assms by (rule less_le_trans [rotated]) simp
  have "(1024::real) powr 5 \<le> n"
    using assms by simp
  then have "5 \<le> log 1024 n"
    using pos by (simp add: le_log_iff)
  then have "5 \<le> \<lfloor>log 1024 n\<rfloor>"
    by linarith
  then have u: "py_index units \<lfloor>log 1024 n\<rfloor> = Inl IndexError"
    by (simp add: py_index_def units_def)
  show ?thesis
    by (simp only: human_bytes_pos [OF pos refl] u sum.case)
qed

text \<open>
  Claim C3. \<open>human_bytes\<close> maps 0 to \<open>0 B\<close> and 1024 to \<open>1.0 KB\<close>. The value is not
  clamped to the largest unit: from \<open>1024^5\<close> on, \<open>units[i]\<close> raises \<open>IndexError\<close>
  (lemma \<open>human_bytes_out_of_range\<close>), as it does at twice \<open>1024^5\<close> bytes. The three
  inputs are far enough from the next power of 1024 for the rounding of \<open>math.log\<close>
  not to change \<open>i\<close>; just below a power of 1024 the program may already choose the
  next unit, which this model of the exact logarithm does not show.
\<close>

theorem human_bytes_not_clamped:
  "human_bytes (Some 0) = Inr (Some ''0 B'') \<and>
   human_bytes (Some 1024) = Inr (Some ''1.0 KB'') \<and>
   human_bytes (Some (2 * 1024 ^ 5)) = Inl IndexError"
proof -
  have "human_bytes (Some 0) = Inr (Some ''0 B'')"
    by (simp add: human_bytes_def)
  with human_bytes_1024 human_bytes_2PiB show ?thesis by blast
qed

section \<open>Properties of the /get_formats handler\<close>

text \<open>
  Claim C6. When the url that the handler reads (from the query string, or from the JSON
  object of the body when the query string has none) contains \<open>list=\<close> or
  \<open>/playlist\<close> in any letter case, the answer is the playlist answer with both lists
  empty, and no command is spawned, whatever the tool would print.
\<close>

theorem playlist_url_short_circuit:
  assumes "is_probably_playlist u"
      and "args_url rq = Some u \<or>
           ((args_url rq = None \<or> args_url rq = Some []) \<and> is_json rq \<and>
            (\<exists>kvs. get_json rq = Some (JObj kvs) \<and> dict_get kvs ''url'' = JStr u))"
  shows "get_formats_api env rq = (Response 200 (FormatsBody (Some ''Playlist'') True [] []), [])"
proof -
  have ne: "u \<noteq> []"
  proof
    assume "u = []"
    with assms(1) show False
      by (simp add: is_probably_playlist_def lower_def startswith_def)
  qed
  from assms(2) have "read_url rq = Inr (JStr u)"
  proof
    assume "args_url rq = Some u"
    with ne show ?thesis by (simp add: read_url_def)
  next
    assume b: "(args_url rq = None \<or> args_url rq = Some []) \<and> is_json rq \<and>
            (\<exists>kvs. get_json rq = Some (JObj kvs) \<and> dict_get kvs ''url'' = JStr u)"
    then obtain kvs where k: "get_json rq = Some (JObj kvs)" "dict_get kvs ''url'' = JStr u" by blast
    have "kvs \<noteq> []"
    proof
      assume "kvs = []"
      with k(2) show False by (simp add: dict_get_def)
    qed
    with b k show ?thesis by (auto simp: read_url_def)
  qed
  with ne assms(1) show ?thesis
    by (simp add: get_formats_api_def playlist_body_def)
qed

theorem playlist_url_short_circuit_witness:
  "is_probably_playlist ''https://a/PlayList?LIST=PL1'' \<and>
   get_formats_api \<lparr>tool_path = ''yt-dlp'', spawn = (\<lambda>c. None), json_loads = (\<lambda>s. Inr None)\<rparr>
     \<lparr>args_url = Some ''https://a/PlayList?LIST=PL1'', is_json = False, get_json = None\<rparr>
     = (Response 200 (FormatsBody (Some ''Playlist'') True [] []), [])"
proof -
  let ?rq = "\<lparr>args_url = Some ''https://a/PlayList?LIST=PL1'', is_json = False, get_json = None\<rparr>"
  have h1: "is_probably_playlist ''https://a/PlayList?LIST=PL1''" by code_simp
  have h2: "args_url ?rq = Some ''https://a/PlayList?LIST=PL1'' \<or>
           ((args_url ?rq = None \<or> args_url ?rq = Some []) \<and> is_json ?rq \<and>
            (\<exists>kvs. get_json ?rq = Some (JObj kvs) \<and> dict_get kvs ''url'' = JStr ''https://a/PlayList?LIST=PL1''))"
    by simp
  from playlist_url_short_circuit [OF h1 h2] h1 show ?thesis by blast
qed

text \<open>
  A request without a url in the query string whose body is not JSON, does not parse,
  is a false value, or is an object without a true \<open>url\<close>, is answered with 400 and
  spawns nothing.
\<close>

lemma missing_url_400:
  assumes "args_url rq = None \<or> args_url rq = Some []"
      and "\<not> is_json rq \<or> get_json rq = None \<or>
           (\<exists>p. get_json rq = Some p \<and> \<not> truthy p) \<or>
           (\<exists>kvs. get_json rq = Some (JObj kvs) \<and> \<not> truthy (dict_get kvs ''url''))"
  shows "get_formats_api env rq = (Response 400 (ErrorBody ''Missing url''), [])"
proof -
  have e: "dict_get [] ''url'' = JNull" by (simp add: dict_get_def)
  from assms have "\<exists>v. read_url rq = Inr v \<and> \<not> truthy v"
    by (auto simp: read_url_def e split: option.splits json.splits)
  then show ?thesis
    by (auto simp: get_formats_api_def)
qed

text \<open>
  Claim C7. A request without a url is answered with status 400 and an error body, and
  spawns no command. This fails for a JSON body that is a true value but not an object,
  such as the array \<open>[1]\<close>: \<open>payload.get\<close> raises \<open>AttributeError\<close>, which nothing
  handles. No command is spawned on that path either.
\<close>

theorem non_object_body_unhandled:
  "get_formats_api env \<lparr>args_url = None, is_json = True, get_json = Some (JArr [JNum 1])\<rparr>
     = (Unhandled AttributeError, [])"
  by (simp add: get_formats_api_def read_url_def)

section \<open>Properties of the classification and of the order\<close>

lemma cli_classify_acc:
  "cli_classify fs vs as =
     (vs @ filter (\<lambda>f. vcodec f \<noteq> Some ''none'' \<and> acodec f = Some ''none'') fs,
      as @ filter (\<lambda>f. acodec f \<noteq> Some ''none'' \<and> vcodec f = Some ''none'') fs)"
  by (induction fs arbitrary: vs as) auto

lemma classify_acc:
  assumes "classify fs vs as = Inr (vs', as')"
  shows "map Inr vs' = map Inr vs @ map make_item (filter (\<lambda>f. vcodec f \<noteq> Some ''none'' \<and> acodec f = Some ''none'') fs) \<and>
         map Inr as' = map Inr as @ map make_item (filter (\<lambda>f. acodec f \<noteq> Some ''none'' \<and> vcodec f = Some ''none'') fs)"
  using assms
proof (induction fs arbitrary: vs as)
  case Nil
  then show ?case by simp
next
  case (Cons f fs)
  from Cons.prems obtain it where it: "make_item f = Inr it"
    by (cases "make_item f") auto
  show ?case
  proof (cases "vcodec f \<noteq> Some ''none'' \<and> acodec f = Some ''none''")
    case True
    with Cons.prems it have "classify fs (vs @ [it]) as = Inr (vs', as')" by simp
    from Cons.IH [OF this] True it show ?thesis by simp
  next
    case nv: False
    show ?thesis
    proof (cases "acodec f \<noteq> Some ''none'' \<and> vcodec f = Some ''none''")
      case True
      with Cons.prems it nv have "classify fs vs (as @ [it]) = Inr (vs', as')" by simp
      from Cons.IH [OF this] True nv it show ?thesis by simp
    next
      case False
      with Cons.prems it nv have "classify fs vs as = Inr (vs', as')" by simp
      from Cons.IH [OF this] False nv show ?thesis by simp
    qed
  qed
qed

lemma classify_total:
  assumes "\<forall>f \<in> set fs. \<exists>it. make_item f = Inr it"
  shows "\<exists>r. classify fs vs as = Inr r"
  using assms by (induction fs arbitrary: vs as) auto








text \<open>
  Claim C1, as amended. The test of both programs is against the tool's word \<open>none\<close>: a
  descriptor goes to the video-only list iff its \<open>vcodec\<close> is not the string \<open>none\<close> and
  its \<open>acodec\<close> is the string \<open>none\<close>, to the audio-only list iff its \<open>acodec\<close> is not
  the string \<open>none\<close> and its \<open>vcodec\<close> is, and to neither list otherwise; a field that
  is absent or null is not \<open>none\<close>. The command-line program keeps the descriptors
  themselves, the handler the items made from them, both in the order of the tool, and
  the handler only if no item raises.
\<close>

theorem classification_rule:
  "cli_classify fs [] [] = (filter (\<lambda>f. vcodec f \<noteq> Some ''none'' \<and> acodec f = Some ''none'') fs, filter (\<lambda>f. acodec f \<noteq> Some ''none'' \<and> vcodec f = Some ''none'') fs) \<and>
   (f \<in> set fs \<longrightarrow>
      (f \<in> set (fst (cli_classify fs [] [])) \<longleftrightarrow> vcodec f \<noteq> Some ''none'' \<and> acodec f = Some ''none'') \<and>
      (f \<in> set (snd (cli_classify fs [] [])) \<longleftrightarrow> acodec f \<noteq> Some ''none'' \<and> vcodec f = Some ''none'')) \<and>
   (classify fs [] [] = Inr (vs, as) \<longrightarrow>
      map Inr vs = map make_item (filter (\<lambda>f. vcodec f \<noteq> Some ''none'' \<and> acodec f = Some ''none'') fs) \<and>
      map Inr as = map make_item (filter (\<lambda>f. acodec f \<noteq> Some ''none'' \<and> vcodec f = Some ''none'') fs))"
proof -
  have a: "cli_classify fs [] [] = (filter (\<lambda>f. vcodec f \<noteq> Some ''none'' \<and> acodec f = Some ''none'') fs, filter (\<lambda>f. acodec f \<noteq> Some ''none'' \<and> vcodec f = Some ''none'') fs)"
    by (simp add: cli_classify_acc)
  have b: "f \<in> set fs \<longrightarrow>
      (f \<in> set (fst (cli_classify fs [] [])) \<longleftrightarrow> vcodec f \<noteq> Some ''none'' \<and> acodec f = Some ''none'') \<and>
      (f \<in> set (snd (cli_classify fs [] [])) \<longleftrightarrow> acodec f \<noteq> Some ''none'' \<and> vcodec f = Some ''none'')"
    by (simp add: a)
  have c: "classify fs [] [] = Inr (vs, as) \<longrightarrow>
      map Inr vs = map make_item (filter (\<lambda>f. vcodec f \<noteq> Some ''none'' \<and> acodec f = Some ''none'') fs) \<and>
      map Inr as = map make_item (filter (\<lambda>f. acodec f \<noteq> Some ''none'' \<and> vcodec f = Some ''none'') fs)"
    using classify_acc [of fs "[]" "[]" vs as] by simp
  from a b c show ?thesis by blast
qed

theorem classification_rule_witness:
  "cli_classify [\<lparr>format_id = Some ''137'', vcodec = Some ''avc1'', acodec = Some ''none'', height = Some 1080, fps = Some 30, abr = None, ext = Some ''mp4'', filesize = None, filesize_approx = None\<rparr>, \<lparr>format_id = Some ''140'', vcodec = Some ''none'', acodec = Some ''mp4a'', height = None, fps = None, abr = Some 128, ext = Some ''m4a'', filesize = None, filesize_approx = None\<rparr>, \<lparr>format_id = Some ''18'', vcodec = Some ''avc1'', acodec = Some ''mp4a'', height = Some 360, fps = Some 30, abr = Some 96, ext = Some ''mp4'', filesize = None, filesize_approx = None\<rparr>] [] [] = ([\<lparr>format_id = Some ''137'', vcodec = Some ''avc1'', acodec = Some ''none'', height = Some 1080, fps = Some 30, abr = None, ext = Some ''mp4'', filesize = None, filesize_approx = None\<rparr>], [\<lparr>format_id = Some ''140'', vcodec = Some ''none'', acodec = Some ''mp4a'', height = None, fps = None, abr = Some 128, ext = Some ''m4a'', filesize = None, filesize_approx = None\<rparr>]) \<and>
   classify [\<lparr>format_id = Some ''137'', vcodec = Some ''avc1'', acodec = Some ''none'', height = Some 1080, fps = Some 30, abr = None, ext = Some ''mp4'', filesize = None, filesize_approx = None\<rparr>, \<lparr>format_id = Some ''140'', vcodec = Some ''none'', acodec = Some ''mp4a'', height = None, fps = None, abr = Some 128, ext = Some ''m4a'', filesize = None, filesize_approx = None\<rparr>, \<lparr>format_id = Some ''18'', vcodec = Some ''avc1'', acodec = Some ''mp4a'', height = Some 360, fps = Some 30, abr = Some 96, ext = Some ''mp4'', filesize = None, filesize_approx = None\<rparr>] [] [] = Inr ([\<lparr>it_format_id = Some ''137'', it_height = Some 1080, it_fps = Some 30, it_ext = Some ''mp4'', it_abr = None, it_filesize = None, it_filesize_hr = None\<rparr>], [\<lparr>it_format_id = Some ''140'', it_height = None, it_fps = None, it_ext = Some ''m4a'', it_abr = Some 128, it_filesize = None, it_filesize_hr = None\<rparr>])"
proof -
  let ?fs = "[\<lparr>format_id = Some ''137'', vcodec = Some ''avc1'', acodec = Some ''none'', height = Some 1080, fps = Some 30, abr = None, ext = Some ''mp4'', filesize = None, filesize_approx = None\<rparr>, \<lparr>format_id = Some ''140'', vcodec = Some ''none'', acodec = Some ''mp4a'', height = None, fps = None, abr = Some 128, ext = Some ''m4a'', filesize = None, filesize_approx = None\<rparr>, \<lparr>format_id = Some ''18'', vcodec = Some ''avc1'', acodec = Some ''mp4a'', height = Some 360, fps = Some 30, abr = Some 96, ext = Some ''mp4'', filesize = None, filesize_approx = None\<rparr>]"
  have c: "classify ?fs [] [] = Inr ([\<lparr>it_format_id = Some ''137'', it_height = Some 1080, it_fps = Some 30, it_ext = Some ''mp4'', it_abr = None, it_filesize = None, it_filesize_hr = None\<rparr>], [\<lparr>it_format_id = Some ''140'', it_height = None, it_fps = None, it_ext = Some ''m4a'', it_abr = Some 128, it_filesize = None, it_filesize_hr = None\<rparr>])"
    by (simp add: make_item_def num_truthy_def)
  from classification_rule [of ?fs "\<lparr>format_id = Some ''137'', vcodec = Some ''avc1'', acodec = Some ''none'', height = Some 1080, fps = Some 30, abr = None, ext = Some ''mp4'', filesize = None, filesize_approx = None\<rparr>" "[\<lparr>it_format_id = Some ''137'', it_height = Some 1080, it_fps = Some 30, it_ext = Some ''mp4'', it_abr = None, it_filesize = None, it_filesize_hr = None\<rparr>]" "[\<lparr>it_format_id = Some ''140'', it_height = None, it_fps = None, it_ext = Some ''m4a'', it_abr = Some 128, it_filesize = None, it_filesize_hr = None\<rparr>]"]
  have "cli_classify ?fs [] [] = ([\<lparr>format_id = Some ''137'', vcodec = Some ''avc1'', acodec = Some ''none'', height = Some 1080, fps = Some 30, abr = None, ext = Some ''mp4'', filesize = None, filesize_approx = None\<rparr>], [\<lparr>format_id = Some ''140'', vcodec = Some ''none'', acodec = Some ''mp4a'', height = None, fps = None, abr = Some 128, ext = Some ''m4a'', filesize = None, filesize_approx = None\<rparr>])" by simp
  with c show ?thesis by blast
qed

text \<open>
  The claim as stated fails for a descriptor that reports no video codec at all and
  \<open>none\<close> as its audio codec: it is listed as video-only.
\<close>

theorem no_video_codec_counterexample:
  "cli_classify [\<lparr>format_id = Some ''x'', vcodec = None, acodec = Some ''none'', height = None, fps = None, abr = None, ext = None, filesize = None, filesize_approx = None\<rparr>] [] [] = ([\<lparr>format_id = Some ''x'', vcodec = None, acodec = Some ''none'', height = None, fps = None, abr = None, ext = None, filesize = None, filesize_approx = None\<rparr>], []) \<and>
   classify [\<lparr>format_id = Some ''x'', vcodec = None, acodec = Some ''none'', height = None, fps = None, abr = None, ext = None, filesize = None, filesize_approx = None\<rparr>] [] [] = Inr ([\<lparr>it_format_id = Some ''x'', it_height = None, it_fps = None, it_ext = None, it_abr = None, it_filesize = None, it_filesize_hr = None\<rparr>], [])"
  by (simp add: make_item_def num_truthy_def)




section \<open>Properties of the /progress handler\<close>

lemma strip_Nil: "strip [] = []"
  by (simp add: strip_def lstrip_def rstrip_def)

lemma strip_spaces:
  assumes "list_all is_space w"
  shows "strip w = []"
proof -
  from assms have d: "dropWhile is_space w = []"
    by (simp add: list_all_iff)
  show ?thesis by (simp add: strip_def lstrip_def rstrip_def d)
qed

lemma mkdirs_result:
  assumes "mkdirs env pre cs t = Inr t'"
  shows "(\<forall>k. 0 < k \<and> k \<le> length cs \<longrightarrow> t' (pre @ take k cs) = Some Dir) \<and>
         (\<forall>x. t x \<noteq> None \<longrightarrow> t' x = t x) \<and>
         (\<forall>x. t' x \<noteq> t x \<longrightarrow> (\<exists>k. 0 < k \<and> k \<le> length cs \<and> x = pre @ take k cs))"
  using assms
proof (induction cs arbitrary: pre t)
  case Nil
  then show ?case by simp
next
  case (Cons c cs)
  let ?p = "pre @ [c]"
  have step: "\<And>t1. mkdirs env ?p cs t1 = Inr t' \<Longrightarrow> t1 ?p = Some Dir \<Longrightarrow>
      (\<forall>x. t x \<noteq> None \<longrightarrow> t1 x = t x) \<Longrightarrow> (\<forall>x. t1 x \<noteq> t x \<longrightarrow> x = ?p) \<Longrightarrow> ?case"
  proof -
    fix t1
    assume m: "mkdirs env ?p cs t1 = Inr t'" and d: "t1 ?p = Some Dir"
      and keep: "\<forall>x. t x \<noteq> None \<longrightarrow> t1 x = t x" and only: "\<forall>x. t1 x \<noteq> t x \<longrightarrow> x = ?p"
    note ih = Cons.IH [OF m]
    from ih d have tp: "t' ?p = Some Dir" by simp
    have a: "\<forall>k. 0 < k \<and> k \<le> length (c # cs) \<longrightarrow> t' (pre @ take k (c # cs)) = Some Dir"
    proof (intro allI impI)
      fix k assume k: "0 < k \<and> k \<le> length (c # cs)"
      then obtain j where j: "k = Suc j" by (cases k) auto
      show "t' (pre @ take k (c # cs)) = Some Dir"
      proof (cases j)
        case 0
        with j tp show ?thesis by simp
      next
        case (Suc i)
        with j k ih have "t' (?p @ take j cs) = Some Dir" by simp
        with j show ?thesis by simp
      qed
    qed
    have b: "\<forall>x. t x \<noteq> None \<longrightarrow> t' x = t x"
      using ih keep by metis
    have c: "\<forall>x. t' x \<noteq> t x \<longrightarrow> (\<exists>k. 0 < k \<and> k \<le> length (c # cs) \<and> x = pre @ take k (c # cs))"
    proof (intro allI impI)
      fix x assume ne: "t' x \<noteq> t x"
      show "\<exists>k. 0 < k \<and> k \<le> length (c # cs) \<and> x = pre @ take k (c # cs)"
      proof (cases "t' x = t1 x")
        case True
        with ne only have "x = ?p" by metis
        then have "0 < Suc 0 \<and> Suc 0 \<le> length (c # cs) \<and> x = pre @ take (Suc 0) (c # cs)" by simp
        then show ?thesis by blast
      next
        case False
        with ih obtain k where "0 < k" "k \<le> length cs" "x = ?p @ take k cs" by blast
        then have "0 < Suc k \<and> Suc k \<le> length (c # cs) \<and> x = pre @ take (Suc k) (c # cs)" by simp
        then show ?thesis by blast
      qed
    qed
    from a b c show ?case by blast
  qed
  show ?case
  proof (cases "t ?p")
    case None
    with Cons.prems have mc: "may_create env ?p" and m: "mkdirs env ?p cs (t(?p := Some Dir)) = Inr t'"
      by (auto split: if_splits)
    show ?thesis
      by (rule step [OF m]) (use None in auto)
  next
    case (Some n)
    with Cons.prems have n: "n = Dir" and m: "mkdirs env ?p cs t = Inr t'"
      by (cases n; simp)+
    show ?thesis
      by (rule step [OF m]) (use Some n in auto)
  qed
qed

lemma mkdirs_succeeds:
  assumes "\<forall>k. 0 < k \<and> k \<le> length cs \<longrightarrow>
             t (pre @ take k cs) = Some Dir \<or> (t (pre @ take k cs) = None \<and> may_create env (pre @ take k cs))"
  shows "\<exists>t'. mkdirs env pre cs t = Inr t'"
  using assms
proof (induction cs arbitrary: pre t)
  case Nil
  then show ?case by simp
next
  case (Cons c cs)
  let ?p = "pre @ [c]"
  from Cons.prems [rule_format, of "Suc 0"]
  have h: "t ?p = Some Dir \<or> (t ?p = None \<and> may_create env ?p)" by simp
  have rest: "\<And>t1. (\<forall>x. x \<noteq> ?p \<longrightarrow> t1 x = t x) \<Longrightarrow> \<exists>t'. mkdirs env ?p cs t1 = Inr t'"
  proof -
    fix t1 :: tree
    assume eq: "\<forall>x. x \<noteq> ?p \<longrightarrow> t1 x = t x"
    show "\<exists>t'. mkdirs env ?p cs t1 = Inr t'"
    proof (rule Cons.IH, intro allI impI)
      fix k assume k: "0 < k \<and> k \<le> length cs"
      then have ne: "?p @ take k cs \<noteq> ?p" by (cases cs) auto
      from Cons.prems [rule_format, of "Suc k"] k
      have "t (?p @ take k cs) = Some Dir \<or> (t (?p @ take k cs) = None \<and> may_create env (?p @ take k cs))"
        by simp
      with eq ne show "t1 (?p @ take k cs) = Some Dir \<or> (t1 (?p @ take k cs) = None \<and> may_create env (?p @ take k cs))"
        by simp
    qed
  qed
  from h show ?case
  proof
    assume d: "t ?p = Some Dir"
    from rest [of t] d show ?thesis by simp
  next
    assume n: "t ?p = None \<and> may_create env ?p"
    from rest [of "t(?p := Some Dir)"] n show ?thesis by simp
  qed
qed

text \<open>
  Claim C5. For a request to \<open>/progress\<close> that is not in playlist mode and carries a url
  and a quality selector, the command handed to the external tool has, after \<open>-f\<close>, the
  selector followed by \<open>+ba\<close> when the selector contains no \<open>+\<close>, and the selector
  itself when it contains one. (When resolving the destination raises, no command is
  made at all.)
\<close>

theorem quality_selector_resolution:
  assumes "\<not> playlist_mode q" and "request_url q \<noteq> []" and "request_quality q \<noteq> []"
  shows "progress env yt_dlp ffmpeg q t =
           (case download_dir env q t of
              Inl e \<Rightarrow> Inl e
            | Inr (dest, t') \<Rightarrow>
                Inr (EventStream ([yt_dlp, ''--newline'', ''-f'',
                       (if CHR ''+'' \<in> set (request_quality q) then request_quality q
                        else request_quality q @ ''+ba''), ''--no-playlist'']
                      @ ffmpeg_args ffmpeg
                      @ [''-o'', path_join dest ''%(title)s.%(ext)s'', request_url q]), t'))"
  using assms by (simp add: progress_def Let_def split: sum.splits prod.splits)

theorem quality_selector_resolution_witness:
  "\<not> playlist_mode \<lparr>q_url = Some '' http://a/b '', q_quality = Some ''137'', q_download_path = None, q_is_playlist = Some ''no''\<rparr> \<and>
   request_url \<lparr>q_url = Some '' http://a/b '', q_quality = Some ''137'', q_download_path = None, q_is_playlist = Some ''no''\<rparr> \<noteq> [] \<and>
   request_quality \<lparr>q_url = Some '' http://a/b '', q_quality = Some ''137'', q_download_path = None, q_is_playlist = Some ''no''\<rparr> \<noteq> [] \<and>
   progress \<lparr>cwd = [''srv''], expanduser = Inr, resolve = (\<lambda>s. Inr [''srv'', s]), may_create = (\<lambda>p. True), unquote = (\<lambda>s. s)\<rparr>
          ''yt-dlp'' ''ffmpeg''
          \<lparr>q_url = Some '' http://a/b '', q_quality = Some ''137'', q_download_path = None, q_is_playlist = Some ''no''\<rparr> Map.empty =
     Inr (EventStream [''yt-dlp'', ''--newline'', ''-f'', ''137+ba'', ''--no-playlist'',
       ''--ffmpeg-location'', ''ffmpeg'', ''-o'', ''/srv/%(title)s.%(ext)s'', ''http://a/b''], Map.empty)"
proof -
  let ?q = "\<lparr>q_url = Some '' http://a/b '', q_quality = Some ''137'', q_download_path = None, q_is_playlist = Some ''no''\<rparr>"
  let ?env = "\<lparr>cwd = [''srv''], expanduser = Inr, resolve = (\<lambda>s. Inr [''srv'', s]), may_create = (\<lambda>p. True), unquote = (\<lambda>s. s)\<rparr>"
  have h1: "\<not> playlist_mode ?q" by code_simp
  have h2: "request_url ?q \<noteq> []" by code_simp
  have h3: "request_quality ?q \<noteq> []" by code_simp
  have q: "request_quality ?q = ''137''" by code_simp
  have u: "request_url ?q = ''http://a/b''" by code_simp
  have s: "path_str [''srv''] = ''/srv''" by code_simp
  have d: "download_dir ?env ?q Map.empty = Inr (''/srv'', Map.empty)"
    by (simp add: download_dir_def args_get_def strip_Nil safe_path_def s)
  have j: "path_join ''/srv'' ''%(title)s.%(ext)s'' = ''/srv/%(title)s.%(ext)s''" by code_simp
  have f: "ffmpeg_args ''ffmpeg'' = [''--ffmpeg-location'', ''ffmpeg'']" by code_simp
  from quality_selector_resolution [OF h1 h2 h3, of ?env "''yt-dlp''" "''ffmpeg''" Map.empty]
  have "progress ?env ''yt-dlp'' ''ffmpeg'' ?q Map.empty =
     Inr (EventStream [''yt-dlp'', ''--newline'', ''-f'', ''137+ba'', ''--no-playlist'',
       ''--ffmpeg-location'', ''ffmpeg'', ''-o'', ''/srv/%(title)s.%(ext)s'', ''http://a/b''], Map.empty)"
    by (simp only: q u d sum.case prod.case) (simp add: j f)
  with h1 h2 h3 show ?thesis by blast
qed

text \<open>
  Claim C10, as amended. The destination of a \<open>/progress\<close> request is \<open>safe_path\<close> of the
  \<open>download_path\<close> parameter, stripped and then percent-decoded. When the parameter is
  missing, empty or white space only, it is the current working directory and nothing
  is created. When the decoded path is not empty and \<open>safe_path\<close> returns, the
  destination is the user-expanded, resolved absolute path; it and every directory above
  it exist afterwards, nothing that existed has changed, and nothing else was created.
  \<open>safe_path\<close> returns whenever expansion and resolution succeed and every directory on
  the way exists or may be created. When it raises, the handler raises too.
\<close>

theorem destination_directory:
  assumes "unquote env [] = []"
  shows "(q_download_path q = None \<or> (\<exists>w. q_download_path q = Some w \<and> list_all is_space w) \<longrightarrow>
            download_dir env q t = Inr (path_str (cwd env), t)) \<and>
         (unquote env (strip (args_get (q_download_path q) [])) \<noteq> [] \<and>
          download_dir env q t = Inr (dest, t') \<longrightarrow>
            (\<exists>p target.
               expanduser env (unquote env (strip (args_get (q_download_path q) []))) = Inr p \<and>
               resolve env p = Inr target \<and>
               dest = path_str target \<and>
               (\<forall>k. 0 < k \<and> k \<le> length target \<longrightarrow> t' (take k target) = Some Dir) \<and>
               (\<forall>x. t x \<noteq> None \<longrightarrow> t' x = t x) \<and>
               (\<forall>x. t' x \<noteq> t x \<longrightarrow> (\<exists>k. 0 < k \<and> k \<le> length target \<and> x = take k target)))) \<and>
         (unquote env (strip (args_get (q_download_path q) [])) \<noteq> [] \<and>
          expanduser env (unquote env (strip (args_get (q_download_path q) []))) = Inr p0 \<and>
          resolve env p0 = Inr target0 \<and>
          (\<forall>k. 0 < k \<and> k \<le> length target0 \<longrightarrow>
             t (take k target0) = Some Dir \<or> (t (take k target0) = None \<and> may_create env (take k target0))) \<longrightarrow>
            (\<exists>t1. download_dir env q t = Inr (path_str target0, t1))) \<and>
         (download_dir env q t = Inl e \<longrightarrow> progress env yt_dlp ffmpeg q t = Inl e)"
proof -
  let ?p = "unquote env (strip (args_get (q_download_path q) []))"
  have a: "q_download_path q = None \<or> (\<exists>w. q_download_path q = Some w \<and> list_all is_space w) \<longrightarrow>
            download_dir env q t = Inr (path_str (cwd env), t)"
    using assms by (auto simp: download_dir_def args_get_def strip_Nil strip_spaces safe_path_def)
  have b: "?p \<noteq> [] \<and> download_dir env q t = Inr (dest, t') \<longrightarrow>
            (\<exists>p target.
               expanduser env ?p = Inr p \<and> resolve env p = Inr target \<and> dest = path_str target \<and>
               (\<forall>k. 0 < k \<and> k \<le> length target \<longrightarrow> t' (take k target) = Some Dir) \<and>
               (\<forall>x. t x \<noteq> None \<longrightarrow> t' x = t x) \<and>
               (\<forall>x. t' x \<noteq> t x \<longrightarrow> (\<exists>k. 0 < k \<and> k \<le> length target \<and> x = take k target)))"
  proof
    assume h: "?p \<noteq> [] \<and> download_dir env q t = Inr (dest, t')"
    then obtain p target where e: "expanduser env ?p = Inr p" and r: "resolve env p = Inr target"
      and m: "mkdirs env [] target t = Inr t'" and d: "dest = path_str target"
      by (auto simp: download_dir_def safe_path_def split: sum.splits)
    from mkdirs_result [OF m] e r d show "\<exists>p target.
               expanduser env ?p = Inr p \<and> resolve env p = Inr target \<and> dest = path_str target \<and>
               (\<forall>k. 0 < k \<and> k \<le> length target \<longrightarrow> t' (take k target) = Some Dir) \<and>
               (\<forall>x. t x \<noteq> None \<longrightarrow> t' x = t x) \<and>
               (\<forall>x. t' x \<noteq> t x \<longrightarrow> (\<exists>k. 0 < k \<and> k \<le> length target \<and> x = take k target))"
      by simp
  qed
  have c: "?p \<noteq> [] \<and> expanduser env ?p = Inr p0 \<and> resolve env p0 = Inr target0 \<and>
          (\<forall>k. 0 < k \<and> k \<le> length target0 \<longrightarrow>
             t (take k target0) = Some Dir \<or> (t (take k target0) = None \<and> may_create env (take k target0))) \<longrightarrow>
            (\<exists>t1. download_dir env q t = Inr (path_str target0, t1))"
  proof
    assume h: "?p \<noteq> [] \<and> expanduser env ?p = Inr p0 \<and> resolve env p0 = Inr target0 \<and>
          (\<forall>k. 0 < k \<and> k \<le> length target0 \<longrightarrow>
             t (take k target0) = Some Dir \<or> (t (take k target0) = None \<and> may_create env (take k target0)))"
    then have "\<exists>t1. mkdirs env [] target0 t = Inr t1"
      using mkdirs_succeeds [of target0 t "[]" env] by simp
    with h show "\<exists>t1. download_dir env q t = Inr (path_str target0, t1)"
      by (auto simp: download_dir_def safe_path_def)
  qed
  have d: "download_dir env q t = Inl e \<longrightarrow> progress env yt_dlp ffmpeg q t = Inl e"
    by (simp add: progress_def Let_def)
  from a b c d show ?thesis by blast
qed

theorem destination_directory_witness:
  "download_dir \<lparr>cwd = [''srv''], expanduser = Inr, resolve = (\<lambda>s. Inr [''srv'', ''a'', ''b'']), may_create = (\<lambda>p. True), unquote = (\<lambda>s. s)\<rparr>
      \<lparr>q_url = None, q_quality = None, q_download_path = Some ''  '', q_is_playlist = None\<rparr>
      [[''srv''] \<mapsto> Dir] = Inr (''/srv'', [[''srv''] \<mapsto> Dir]) \<and>
   download_dir \<lparr>cwd = [''srv''], expanduser = Inr, resolve = (\<lambda>s. Inr [''srv'', ''a'', ''b'']), may_create = (\<lambda>p. True), unquote = (\<lambda>s. s)\<rparr>
      \<lparr>q_url = None, q_quality = None, q_download_path = Some '' a/b'', q_is_playlist = None\<rparr>
      [[''srv''] \<mapsto> Dir] =
     Inr (''/srv/a/b'', [[''srv''] \<mapsto> Dir, [''srv'', ''a''] \<mapsto> Dir, [''srv'', ''a'', ''b''] \<mapsto> Dir])"
proof -
  let ?env = "\<lparr>cwd = [''srv''], expanduser = Inr, resolve = (\<lambda>s. Inr [''srv'', ''a'', ''b'']), may_create = (\<lambda>p. True), unquote = (\<lambda>s. s)\<rparr>"
  let ?q0 = "\<lparr>q_url = None, q_quality = None, q_download_path = Some ''  '', q_is_playlist = None\<rparr>"
  let ?q1 = "\<lparr>q_url = None, q_quality = None, q_download_path = Some '' a/b'', q_is_playlist = None\<rparr>"
  let ?t = "[[''srv''] \<mapsto> Dir] :: tree"
  have h: "unquote ?env [] = []" by simp
  have sp: "list_all is_space ''  ''" by code_simp
  have s: "path_str [''srv''] = ''/srv''" by code_simp
  from destination_directory [OF h, of ?q0 ?t] sp
  have a: "download_dir ?env ?q0 ?t = Inr (''/srv'', ?t)" by (simp add: s)
  have st: "strip '' a/b'' = ''a/b''" by code_simp
  have s3: "path_str [''srv'', ''a'', ''b''] = ''/srv/a/b''" by code_simp
  have b: "download_dir ?env ?q1 ?t =
     Inr (''/srv/a/b'', [[''srv''] \<mapsto> Dir, [''srv'', ''a''] \<mapsto> Dir, [''srv'', ''a'', ''b''] \<mapsto> Dir])"
    by (simp add: download_dir_def args_get_def st safe_path_def s3)
  from a b show ?thesis by blast
qed

text \<open>
  The claim as stated, for every non-empty path, fails: when a file is in the way of the
  directories to create, \<open>mkdir\<close> raises and no destination is returned.
\<close>

theorem destination_raises_counterexample:
  "download_dir \<lparr>cwd = [''srv''], expanduser = Inr, resolve = (\<lambda>s. Inr [''srv'', ''f'', ''x'']), may_create = (\<lambda>p. True), unquote = (\<lambda>s. s)\<rparr>
      \<lparr>q_url = None, q_quality = None, q_download_path = Some ''f/x'', q_is_playlist = None\<rparr>
      [[''srv''] \<mapsto> Dir, [''srv'', ''f''] \<mapsto> File True] = Inl NotADirectoryError"
proof -
  have st: "strip ''f/x'' = ''f/x''" by code_simp
  show ?thesis by (simp add: download_dir_def args_get_def st safe_path_def)
qed

section \<open>Properties of the event stream\<close>

lemma rstrip_keeps_head:
  assumes "\<not> is_space c"
  shows "\<exists>cs'. rstrip (c # cs) = c # cs'"
proof -
  have "dropWhile is_space (rev cs @ [c]) = dropWhile is_space (rev cs) @ [c]"
    using assms by (simp add: dropWhile_append)
  then show ?thesis by (simp add: rstrip_def)
qed

lemma strip_keeps_head:
  assumes "\<not> is_space c"
  shows "\<exists>cs'. strip (c # cs) = c # cs'"
  using assms rstrip_keeps_head [OF assms] by (simp add: strip_def lstrip_def)

lemma strip_of_ERROR:
  assumes "startswith line ''ERROR:''"
  shows "\<exists>cs. strip line = CHR ''E'' # cs"
proof -
  from assms obtain r where l: "line = CHR ''E'' # r"
    by (cases line) (auto simp: startswith_def)
  have "\<not> is_space CHR ''E''" by code_simp
  from strip_keeps_head [OF this] l show ?thesis by simp
qed

lemma parse_line_not_terminal:
  assumes "parse_line raw = Some e"
  shows "\<not> terminal e"
proof -
  have err: "\<And>l. startswith l ''ERROR:'' \<Longrightarrow> \<not> terminal (Error (strip l))"
  proof -
    fix l assume "startswith l ''ERROR:''"
    from strip_of_ERROR [OF this] obtain cs where "strip l = CHR ''E'' # cs" ..
    then show "\<not> terminal (Error (strip l))"
      by (simp add: terminal_def is_exit_error_def startswith_def)
  qed
  from assms show ?thesis
    by (auto simp: parse_line_def Let_def terminal_def is_exit_error_def dest: err [unfolded terminal_def is_exit_error_def]
        split: option.splits if_splits)
qed

lemma content_not_terminal: "filter terminal (content ls) = []"
proof -
  have "\<forall>e \<in> set (content ls). \<not> terminal e"
    by (auto simp: content_def List.map_filter_def dest: parse_line_not_terminal)
  then show ?thesis by (simp add: filter_empty_conv)
qed

lemma exit_error_terminal: "terminal (Error (exit_message ret))"
  by (simp add: terminal_def is_exit_error_def exit_message_def startswith_def)

lemma of_char_digit_char:
  assumes "d < 10"
  shows "(of_char (digit_char d) :: nat) = 48 + d"
  using assms by (simp add: digit_char_def)

lemma digits_value_snoc: "digits_value (s @ [c]) = 10 * digits_value s + (of_char c - 48)"
  by (simp add: digits_value_def)

lemma digits_value_show_nat: "digits_value (show_nat n) = n"
proof (induction n rule: show_nat.induct)
  case (1 n)
  show ?case
  proof (cases "n < 10")
    case True
    then show ?thesis
      by (subst show_nat.simps) (simp add: digits_value_def of_char_digit_char)
  next
    case False
    have m: "n mod 10 < 10" by simp
    from False 1 have ih: "digits_value (show_nat (n div 10)) = n div 10" by simp
    from False have "show_nat n = show_nat (n div 10) @ [digit_char (n mod 10)]"
      by (subst show_nat.simps) simp
    then show ?thesis
      by (simp add: digits_value_snoc ih of_char_digit_char [OF m])
  qed
qed

lemma show_nat_head:
  "\<exists>d r. d < 10 \<and> show_nat n = digit_char d # r"
proof (induction n rule: show_nat.induct)
  case (1 n)
  show ?case
  proof (cases "n < 10")
    case True
    then have "show_nat n = [digit_char n]" by (subst show_nat.simps) simp
    with True show ?thesis by blast
  next
    case False
    with 1 obtain d r where d: "d < 10" "show_nat (n div 10) = digit_char d # r" by blast
    from False have "show_nat n = show_nat (n div 10) @ [digit_char (n mod 10)]"
      by (subst show_nat.simps) simp
    with d have "show_nat n = digit_char d # (r @ [digit_char (n mod 10)])" by simp
    with d(1) show ?thesis by blast
  qed
qed

lemma digit_char_not_minus:
  assumes "d < 10"
  shows "digit_char d \<noteq> CHR ''-''"
proof
  assume "digit_char d = CHR ''-''"
  then have "(of_char (digit_char d) :: nat) = of_char CHR ''-''" by simp
  with of_char_digit_char [OF assms] show False by simp
qed

lemma read_int_show_int: "read_int (show_int i) = i"
proof (cases "i < 0")
  case True
  then show ?thesis
    by (simp add: show_int_def read_int_def digits_value_show_nat)
next
  case False
  from show_nat_head [of "nat i"] obtain d r where d: "d < 10" "show_nat (nat i) = digit_char d # r"
    by blast
  have "read_int (show_nat (nat i)) = int (digits_value (show_nat (nat i)))"
    using digit_char_not_minus [OF d(1)] by (simp add: read_int_def d(2))
  with False show ?thesis
    by (simp add: show_int_def digits_value_show_nat)
qed

text \<open>
  Claim C2, as amended. When the output of the process is read to its end: with exit code
  zero the stream has exactly one terminal event, \<open>finished\<close>, as its last event; with
  another exit code it has exactly one terminal event, the error whose message is
  \<open>yt-dlp exited with code\<close> followed by the code in decimal (which reads back as the
  code), as its last event, and no \<open>finished\<close> event. When reading the output raises,
  whatever the exit code, or when the process cannot be launched, the stream ends with
  one error event that carries the text of the exception, and has no \<open>finished\<close>
  event. Every run is \<open>starting\<close>, then events that are not terminal, then one last
  event, \<open>finished\<close> or an error; no run has two terminal events. (A line that starts
  with \<open>ERROR:\<close> gives an error event of its own, which does not end the stream.)
\<close>

theorem one_terminal_event:
  "filter terminal (sse_stream (Ran ls 0)) = [Finished] \<and>
   last (sse_stream (Ran ls 0)) = Finished \<and>
   (ret \<noteq> 0 \<longrightarrow>
      filter terminal (sse_stream (Ran ls ret)) = [Error (''yt-dlp exited with code '' @ show_int ret)] \<and>
      last (sse_stream (Ran ls ret)) = Error (''yt-dlp exited with code '' @ show_int ret) \<and>
      Finished \<notin> set (sse_stream (Ran ls ret))) \<and>
   read_int (show_int ret) = ret \<and>
   sse_stream (ReadError ls m ret) = Starting # content ls @ [Error m] \<and>
   Finished \<notin> set (sse_stream (ReadError ls m ret)) \<and>
   sse_stream (LaunchNotFound m) = [Starting, Error m] \<and>
   sse_stream (LaunchError m) = [Starting, Error m] \<and>
   length (filter terminal (sse_stream run)) \<le> 1 \<and>
   (\<exists>evs e. sse_stream run = Starting # evs @ [e] \<and> filter terminal evs = [] \<and>
      (e = Finished \<or> (\<exists>msg. e = Error msg)))"
proof -
  have fin: "terminal Finished" "\<not> terminal Starting"
    by (simp_all add: terminal_def is_exit_error_def)
  have ex: "\<And>r. terminal (Error (''yt-dlp exited with code '' @ show_int r))"
    using exit_error_terminal by (simp add: exit_message_def)
  have nofin: "Finished \<notin> set (content ls)"
  proof
    assume "Finished \<in> set (content ls)"
    then have "Finished \<in> set (filter terminal (content ls))"
      by (simp add: fin)
    then show False by (simp add: content_not_terminal)
  qed
  have a: "filter terminal (sse_stream (Ran ls 0)) = [Finished]"
    by (simp add: content_not_terminal fin)
  have b: "last (sse_stream (Ran ls 0)) = Finished"
    by simp
  have c: "ret \<noteq> 0 \<longrightarrow>
      filter terminal (sse_stream (Ran ls ret)) = [Error (''yt-dlp exited with code '' @ show_int ret)] \<and>
      last (sse_stream (Ran ls ret)) = Error (''yt-dlp exited with code '' @ show_int ret) \<and>
      Finished \<notin> set (sse_stream (Ran ls ret))"
    using nofin ex [of ret] by (simp add: content_not_terminal fin exit_message_def)
  have d: "read_int (show_int ret) = ret"
    by (rule read_int_show_int)
  have e: "sse_stream (ReadError ls m ret) = Starting # content ls @ [Error m]"
    by simp
  have f: "Finished \<notin> set (sse_stream (ReadError ls m ret))"
    using nofin by simp
  have g: "sse_stream (LaunchNotFound m) = [Starting, Error m]" "sse_stream (LaunchError m) = [Starting, Error m]"
    by simp_all
  have h: "length (filter terminal (sse_stream run)) \<le> 1"
  proof (cases run)
    case (Ran ls' r)
    then show ?thesis by (simp add: content_not_terminal fin)
  next
    case (ReadError ls' m' r')
    then show ?thesis by (simp add: content_not_terminal fin)
  qed (simp_all add: fin)
  have i: "\<exists>evs e. sse_stream run = Starting # evs @ [e] \<and> filter terminal evs = [] \<and>
      (e = Finished \<or> (\<exists>msg. e = Error msg))"
  proof (cases run)
    case (LaunchNotFound m')
    then have "sse_stream run = Starting # [] @ [Error m'] \<and> filter terminal [] = [] \<and>
       (Error m' = Finished \<or> (\<exists>msg. Error m' = Error msg))" by simp
    then show ?thesis by blast
  next
    case (LaunchError m')
    then have "sse_stream run = Starting # [] @ [Error m'] \<and> filter terminal [] = [] \<and>
       (Error m' = Finished \<or> (\<exists>msg. Error m' = Error msg))" by simp
    then show ?thesis by blast
  next
    case (Ran ls' r)
    let ?e = "if r = 0 then Finished else Error (exit_message r)"
    from Ran have "sse_stream run = Starting # content ls' @ [?e] \<and> filter terminal (content ls') = [] \<and>
       (?e = Finished \<or> (\<exists>msg. ?e = Error msg))" by (simp add: content_not_terminal)
    then show ?thesis by blast
  next
    case (ReadError ls' m' r')
    then have "sse_stream run = Starting # content ls' @ [Error m'] \<and> filter terminal (content ls') = [] \<and>
       (Error m' = Finished \<or> (\<exists>msg. Error m' = Error msg))" by (simp add: content_not_terminal)
    then show ?thesis by blast
  qed
  from a b c d e f g h i show ?thesis by blast
qed

theorem one_terminal_event_witness:
  "(1::int) \<noteq> 0 \<and>
   sse_stream (Ran [''[Merger] Merging formats'', ''ERROR: unable to download''] 1)
     = [Starting, Merging ''[Merger] Merging formats'', Error ''ERROR: unable to download'',
        Error ''yt-dlp exited with code 1''] \<and>
   filter terminal (sse_stream (Ran [''[Merger] Merging formats'', ''ERROR: unable to download''] 1))
     = [Error ''yt-dlp exited with code 1''] \<and>
   sse_stream (Ran [] (- 9)) = [Starting, Error ''yt-dlp exited with code -9''] \<and>
   sse_stream (Ran [] 127) = [Starting, Error ''yt-dlp exited with code 127''] \<and>
   sse_stream (Ran [''[Merger] Merging formats''] 0) = [Starting, Merging ''[Merger] Merging formats'', Finished]"
proof -
  let ?ls = "[''[Merger] Merging formats'', ''ERROR: unable to download'']"
  have one: "(1::int) \<noteq> 0" by simp
  have m: "show_int 1 = ''1''" by code_simp
  have s: "sse_stream (Ran ?ls 1)
     = [Starting, Merging ''[Merger] Merging formats'', Error ''ERROR: unable to download'',
        Error ''yt-dlp exited with code 1'']" by code_simp
  have s9: "sse_stream (Ran [] (- 9)) = [Starting, Error ''yt-dlp exited with code -9'']" by code_simp
  have s127: "sse_stream (Ran [] 127) = [Starting, Error ''yt-dlp exited with code 127'']" by code_simp
  have s0: "sse_stream (Ran [''[Merger] Merging formats''] 0) = [Starting, Merging ''[Merger] Merging formats'', Finished]"
    by code_simp
  note t = one_terminal_event [of ?ls 1 "[]" "Ran ?ls 1"]
  from t one have "filter terminal (sse_stream (Ran ?ls 1)) = [Error (''yt-dlp exited with code '' @ show_int 1)]"
    by blast
  then have b: "filter terminal (sse_stream (Ran ?ls 1)) = [Error ''yt-dlp exited with code 1'']"
    by (simp only: m) simp
  from one s b s9 s127 s0 show ?thesis by blast
qed

text \<open>
  The claim as stated fails for a process that exits with code zero while a line of its
  output could not be read: the stream ends with the error of the exception and has no
  \<open>finished\<close> event.
\<close>

theorem finished_missing_counterexample:
  "sse_stream (ReadError [''[youtube] abc: Downloading webpage''] ''UnicodeDecodeError'' 0)
     = [Starting, Info ''[youtube] abc: Downloading webpage'', Error ''UnicodeDecodeError'']"
  by code_simp


lemma digits_1_3_shape:
  assumes "digits_1_3 s = Some (d, r)"
  shows "d \<noteq> [] \<and> list_all is_digit d \<and> length d \<le> 3 \<and> s = d @ r"
proof -
  let ?d = "takeWhile is_digit (take 3 s)"
  from assms have d: "d = ?d" and r: "r = drop (length ?d) s" and ne: "?d \<noteq> []"
    by (auto simp: digits_1_3_def Let_def split: if_splits)
  have all: "list_all is_digit ?d"
    by (simp add: list_all_iff) (meson set_takeWhileD)
  have len: "length ?d \<le> 3"
    by (rule order_trans [OF length_takeWhile_le]) simp
  have "?d = take (length ?d) (take 3 s)"
    by (metis takeWhile_eq_take)
  also have "\<dots> = take (length ?d) s"
    using len by (simp add: min_def)
  finally have "s = ?d @ drop (length ?d) s"
    by (metis append_take_drop_id)
  with d r ne all len show ?thesis by simp
qed

lemma fraction_opt_shape:
  assumes "fraction_opt s = (f, r)"
  shows "f = [] \<or> (\<exists>g. f = CHR ''.'' # g \<and> g \<noteq> [] \<and> list_all is_digit g)"
proof (cases s)
  case Nil
  with assms show ?thesis by (simp add: fraction_opt_def)
next
  case (Cons c t)
  have "list_all is_digit (takeWhile is_digit t)"
    by (simp add: list_all_iff) (meson set_takeWhileD)
  with assms Cons show ?thesis
    by (auto simp: fraction_opt_def split: if_splits)
qed

lemma not_digit_point: "\<not> is_digit CHR ''.''"
  by code_simp

lemma py_float_decimal:
  assumes "d \<noteq> []" and "list_all is_digit d"
      and "f = [] \<or> (\<exists>g. f = CHR ''.'' # g \<and> g \<noteq> [] \<and> list_all is_digit g)"
  shows "py_float (d @ f) \<noteq> None"
proof -
  from assms(2) have all: "\<forall>x \<in> set d. is_digit x" by (simp add: list_all_iff)
  from assms(3) show ?thesis
  proof
    assume e: "f = []"
    have tw0: "takeWhile is_digit d = d" using all by simp
    from e assms(1) show ?thesis by (simp add: py_float_def Let_def tw0)
  next
    assume "\<exists>g. f = CHR ''.'' # g \<and> g \<noteq> [] \<and> list_all is_digit g"
    then obtain g where f: "f = CHR ''.'' # g" and g: "g \<noteq> []" "list_all is_digit g" by blast
    have tw: "takeWhile is_digit (d @ CHR ''.'' # g) = d"
      using all not_digit_point by (simp add: takeWhile_append)
    have "py_float (d @ CHR ''.'' # g) \<noteq> None"
      using assms(1) g by (simp add: py_float_def tw Let_def)
    with f show ?thesis by simp
  qed
qed

lemma progress_re_pct:
  assumes "progress_re line = Some (pct, sz, speed, eta)"
  shows "\<exists>d f. pct = d @ f \<and> d \<noteq> [] \<and> list_all is_digit d \<and> length d \<le> 3 \<and>
           (f = [] \<or> (\<exists>g. f = CHR ''.'' # g \<and> g \<noteq> [] \<and> list_all is_digit g))"
proof -
  from assms obtain r1 d r2 f r3 where
    a: "digits_1_3 r1 = Some (d, r2)" and b: "fraction_opt r2 = (f, r3)" and c: "pct = d @ f"
    by (auto simp: progress_re_def split: Option.bind_splits prod.splits)
  from digits_1_3_shape [OF a] fraction_opt_shape [OF b] c show ?thesis by blast
qed

lemma parse_line_percent:
  assumes "parse_line raw = Some (Downloading pct sz speed eta)"
  shows "pct \<noteq> None"
proof -
  from assms obtain p where m: "progress_re (rstrip raw) = Some (p, sz, speed, eta)" and p: "pct = py_float p"
    by (auto simp: parse_line_def Let_def split: option.splits if_splits)
  from progress_re_pct [OF m] obtain d f where
    "p = d @ f" "d \<noteq> []" "list_all is_digit d"
    "f = [] \<or> (\<exists>g. f = CHR ''.'' # g \<and> g \<noteq> [] \<and> list_all is_digit g)"
    by blast
  with py_float_decimal [of d f] p show ?thesis by simp
qed

text \<open>
  Claim C9. Every \<open>downloading\<close> event of the stream carries a percent that is a number,
  never null: the \<open>pct\<close> group of a matching line is one to three digits, optionally
  followed by a point and at least one digit (lemma \<open>progress_re_pct\<close>), and
  \<open>float\<close> accepts every such text, so the \<open>except\<close> branch is never taken.
\<close>

theorem downloading_percent_not_null:
  assumes "Downloading pct sz speed eta \<in> set (sse_stream run)"
  shows "pct \<noteq> None"
proof -
  have c: "\<And>ls. Downloading pct sz speed eta \<in> set (content ls) \<Longrightarrow> pct \<noteq> None"
    by (auto simp: content_def List.map_filter_def dest: parse_line_percent)
  from assms show ?thesis
    by (cases run) (auto dest: c split: if_splits)
qed

theorem downloading_percent_not_null_witness:
  "Downloading (Some (85 / 2)) ''10.00MiB'' ''1.00MiB/s'' ''00:05''
     \<in> set (sse_stream (Ran [''[download]  42.5% of 10.00MiB at 1.00MiB/s ETA 00:05''] 0)) \<and>
   Some (85 / 2 :: real) \<noteq> None"
proof -
  have s: "sse_stream (Ran [''[download]  42.5% of 10.00MiB at 1.00MiB/s ETA 00:05''] 0) =
      [Starting, Downloading (Some (85 / 2)) ''10.00MiB'' ''1.00MiB/s'' ''00:05'', Finished]"
    by code_simp
  then have m: "Downloading (Some (85 / 2)) ''10.00MiB'' ''1.00MiB/s'' ''00:05''
     \<in> set (sse_stream (Ran [''[download]  42.5% of 10.00MiB at 1.00MiB/s ETA 00:05''] 0))"
    by simp
  from downloading_percent_not_null [OF m] m show ?thesis by blast
qed

section \<open>Properties of download_and_merge\<close>

lemma cleanup_removable:
  assumes "s video_file = None \<or> s video_file = Some (File True)"
      and "s audio_file = None \<or> s audio_file = Some (File True)"
  shows "fst (cleanup [video_file, audio_file] s) \<and>
         snd (cleanup [video_file, audio_file] s) video_file = None \<and>
         snd (cleanup [video_file, audio_file] s) audio_file = None"
proof -
  have ne: "video_file \<noteq> audio_file"
    by (simp add: video_file_def audio_file_def)
  from assms ne show ?thesis
    by (auto simp: os_path_exists_def os_remove_def)
qed

text \<open>
  Claim C8, as amended. On every exit path of \<open>download_and_merge\<close> (the value \<open>True\<close>,
  the value \<open>False\<close> after any of the three commands failed, \<open>sys.exit\<close> or another
  exception), whatever the commands did, if at the end of the \<open>try\<close> body each of
  \<open>video_temp.mp4\<close> and \<open>audio_temp.m4a\<close> is absent or a file that the process may
  remove, then neither exists afterwards, and the outcome is the one of the \<open>try\<close> body.
\<close>

theorem temporaries_removed_when_removable:
  assumes "snd (try_body run yt_dlp ffmpeg url video_fmt audio_fmt output_name s) video_file = None \<or>
           snd (try_body run yt_dlp ffmpeg url video_fmt audio_fmt output_name s) video_file = Some (File True)"
      and "snd (try_body run yt_dlp ffmpeg url video_fmt audio_fmt output_name s) audio_file = None \<or>
           snd (try_body run yt_dlp ffmpeg url video_fmt audio_fmt output_name s) audio_file = Some (File True)"
  shows "snd (download_and_merge run yt_dlp ffmpeg url video_fmt audio_fmt output_name s) video_file = None \<and>
         snd (download_and_merge run yt_dlp ffmpeg url video_fmt audio_fmt output_name s) audio_file = None \<and>
         fst (download_and_merge run yt_dlp ffmpeg url video_fmt audio_fmt output_name s) =
           fst (try_body run yt_dlp ffmpeg url video_fmt audio_fmt output_name s)"
proof -
  obtain r s' where b: "try_body run yt_dlp ffmpeg url video_fmt audio_fmt output_name s = (r, s')"
    by (cases "try_body run yt_dlp ffmpeg url video_fmt audio_fmt output_name s")
  from assms b have "s' video_file = None \<or> s' video_file = Some (File True)"
    and "s' audio_file = None \<or> s' audio_file = Some (File True)" by simp_all
  from cleanup_removable [OF this] b show ?thesis
    by (cases "cleanup [video_file, audio_file] s'") (simp add: download_and_merge_def)
qed

theorem temporaries_removed_when_removable_witness:
  "snd (download_and_merge (\<lambda>cmd s. (Completed [], s(''video_temp.mp4'' := Some (File True))))
          ''yt-dlp'' ''ffmpeg'' ''u'' ''137'' ''140'' ''out.mp4'' (\<lambda>f. None)) ''video_temp.mp4'' = None \<and>
   snd (download_and_merge (\<lambda>cmd s. (Completed [], s(''video_temp.mp4'' := Some (File True))))
          ''yt-dlp'' ''ffmpeg'' ''u'' ''137'' ''140'' ''out.mp4'' (\<lambda>f. None)) ''audio_temp.m4a'' = None \<and>
   fst (download_and_merge (\<lambda>cmd s. (Completed [], s(''video_temp.mp4'' := Some (File True))))
          ''yt-dlp'' ''ffmpeg'' ''u'' ''137'' ''140'' ''out.mp4'' (\<lambda>f. None)) = Returned True"
proof -
  let ?run = "\<lambda>(cmd :: string list) (s :: fs). (Completed [], s(''video_temp.mp4'' := Some (File True)))"
  let ?t = "try_body ?run ''yt-dlp'' ''ffmpeg'' ''u'' ''137'' ''140'' ''out.mp4'' (\<lambda>f. None)"
  have r: "fst ?t = Returned True"
    by (simp add: try_body_def step_def run_cmd_def)
  have v: "snd ?t video_file = None \<or> snd ?t video_file = Some (File True)"
    by (simp add: try_body_def step_def run_cmd_def video_file_def)
  have a: "snd ?t audio_file = None \<or> snd ?t audio_file = Some (File True)"
    by (simp add: try_body_def step_def run_cmd_def audio_file_def video_file_def)
  from temporaries_removed_when_removable [OF v a] r show ?thesis
    by (simp add: video_file_def audio_file_def)
qed

text \<open>
  The claim as stated, on every exit path without condition, fails. Here
  \<open>video_temp.mp4\<close> is a file that the process may not remove and the first command
  fails: \<open>os.remove\<close> raises in the \<open>finally\<close> block, the loop ends before it reaches
  \<open>audio_temp.m4a\<close>, and both files are still there.
\<close>

theorem temporaries_remain_counterexample:
  "download_and_merge (\<lambda>cmd s. (NonZero, s)) ''yt-dlp'' ''ffmpeg'' ''u'' ''137'' ''140'' ''out.mp4''
     ((\<lambda>f. None)(''video_temp.mp4'' := Some (File False), ''audio_temp.m4a'' := Some (File True)))
   = (Raised, (\<lambda>f. None)(''video_temp.mp4'' := Some (File False), ''audio_temp.m4a'' := Some (File True)))"
  by (simp add: download_and_merge_def try_body_def step_def run_cmd_def video_file_def audio_file_def
      os_path_exists_def os_remove_def)

end
